theory Spec2Isabelle
  imports Main "HOL-Library.Sublist"
begin

section \<open>Values, dictionaries and exceptions\<close>

text \<open>
  The records of \<^verbatim>\<open>enhance.py\<close> are the dictionaries that \<^verbatim>\<open>json.loads\<close> returns.
  JSON numbers are integers here (floating-point values are left out); a dictionary is
  an association list with distinct keys in insertion order, as a Python \<^verbatim>\<open>dict\<close> is.
  A character is a code point below 256.
\<close>

datatype json =
    JNull
  | JBool bool
  | JInt int
  | JStr string
  | JArr "json list"
  | JObj "(string \<times> json) list"

type_synonym item = "(string \<times> json) list"

text \<open>\<^verbatim>\<open>d.get(k)\<close> and \<^verbatim>\<open>d[k]\<close> (the latter raises \<^verbatim>\<open>KeyError\<close> on \<open>None\<close>).\<close>

definition dict_get :: "item \<Rightarrow> string \<Rightarrow> json option" where
  "dict_get d k = map_of d k"

text \<open>\<^verbatim>\<open>d[k] = v\<close>: an existing key keeps its position, a new key is appended.\<close>

fun dict_set :: "string \<Rightarrow> json \<Rightarrow> item \<Rightarrow> item" where
  "dict_set k v [] = [(k, v)]"
| "dict_set k v ((k', v') # d) =
     (if k' = k then (k, v) # d else (k', v') # dict_set k v d)"

datatype error =
    KeyError string
  | TypeError
  | ValueError
  | OverflowError
  | OSError
  | UnboundLocalError
  | FileNotFoundError

section \<open>The string operations the program uses\<close>

text \<open>\<^verbatim>\<open>sub in s\<close>.\<close>

fun py_in :: "string \<Rightarrow> string \<Rightarrow> bool" where
  "py_in sub [] = (sub = [])"
| "py_in sub (c # cs) = (prefix sub (c # cs) \<or> py_in sub cs)"

text \<open>\<^verbatim>\<open>s.split(sep, 1)[1]\<close>: the text after the first occurrence of \<open>sep\<close>;
  \<open>None\<close> is the \<^verbatim>\<open>IndexError\<close> of a one-element split.\<close>

fun split1_tail :: "string \<Rightarrow> string \<Rightarrow> string option" where
  "split1_tail sep [] = None"
| "split1_tail sep (c # cs) =
     (if prefix sep (c # cs) then Some (drop (length sep) (c # cs))
      else split1_tail sep cs)"

text \<open>\<^verbatim>\<open>s.split(sep)[0]\<close>: the text before the first occurrence of \<open>sep\<close>, all of
  \<open>s\<close> when there is none.\<close>

fun split_head :: "string \<Rightarrow> string \<Rightarrow> string" where
  "split_head sep [] = []"
| "split_head sep (c # cs) =
     (if prefix sep (c # cs) then [] else c # split_head sep cs)"

text \<open>\<^verbatim>\<open>str.isspace\<close> on one character, for code points below 256.\<close>

definition py_isspace :: "char \<Rightarrow> bool" where
  "py_isspace c =
     ((of_char c :: nat) \<in> {9, 10, 11, 12, 13, 28, 29, 30, 31, 32, 133, 160})"

text \<open>\<^verbatim>\<open>s.strip()\<close>.\<close>

definition py_strip :: "string \<Rightarrow> string" where
  "py_strip s = rev (dropWhile py_isspace (rev (dropWhile py_isspace s)))"

text \<open>\<^verbatim>\<open>s.replace(old, new)\<close>: occurrences are found from the left and do not
  overlap; an empty \<open>old\<close> matches before every character and at the end.\<close>

function py_replace :: "string \<Rightarrow> string \<Rightarrow> string \<Rightarrow> string" where
  "py_replace old new [] = (if old = [] then new else [])"
| "py_replace old new (c # cs) =
     (if old = [] then new @ c # py_replace old new cs
      else if prefix old (c # cs)
        then new @ py_replace old new (drop (length old) (c # cs))
      else c # py_replace old new cs)"
  by pat_completeness auto
termination
  by (relation "measure (\<lambda>(old, new, s). length s)") auto

section \<open>The pacing delay: \<^verbatim>\<open>API_DELAY_SECONDS\<close>\<close>

text \<open>Lines written to \<^verbatim>\<open>sys.stderr\<close>, each with the values its f-string interpolates.\<close>

datatype log_entry =
    InvalidDelayWarning int
  | ConnectTo string
  | FailedToFixJSON json string string
  | UnexpectedError json string
  | ItemException nat error
  | RemovedExistingFile string
  | OpenFile string

text \<open>
  \<^verbatim>\<open>int(s)\<close> on a string, base 10: surrounding whitespace is stripped, one sign is
  allowed, then decimal digits, with single underscores between digits only.
  Anything else raises \<^verbatim>\<open>ValueError\<close>.
\<close>

definition digit_val :: "char \<Rightarrow> nat option" where
  "digit_val c =
     (let n = (of_char c :: nat) in if 48 \<le> n \<and> n \<le> 57 then Some (n - 48) else None)"

text \<open>\<open>digits acc after_digit s\<close>: \<open>after_digit\<close> tells whether the previous character
  was a digit (an underscore is legal only there, and not last).\<close>

fun digits :: "nat \<Rightarrow> bool \<Rightarrow> string \<Rightarrow> nat option" where
  "digits acc after_digit [] = (if after_digit then Some acc else None)"
| "digits acc after_digit (c # cs) =
     (if c = CHR ''_'' then (if after_digit then digits acc False cs else None)
      else (case digit_val c of
              None \<Rightarrow> None
            | Some d \<Rightarrow> digits (10 * acc + d) True cs))"

definition py_int :: "string \<Rightarrow> error + int" where
  "py_int s =
     (case py_strip s of
        [] \<Rightarrow> Inl ValueError
      | c # cs \<Rightarrow>
          (if c = CHR ''-'' then
             (case digits 0 False cs of None \<Rightarrow> Inl ValueError | Some n \<Rightarrow> Inr (- int n))
           else if c = CHR ''+'' then
             (case digits 0 False cs of None \<Rightarrow> Inl ValueError | Some n \<Rightarrow> Inr (int n))
           else
             (case digits 0 False (c # cs) of None \<Rightarrow> Inl ValueError | Some n \<Rightarrow> Inr (int n))))"

text \<open>
  Lines 28 to 33. The argument is \<^verbatim>\<open>os.environ.get("API_DELAY_SECONDS")\<close>; unset, the
  default \<open>5\<close> goes through \<^verbatim>\<open>int\<close> unchanged. The conversion is not inside any
  \<^verbatim>\<open>try\<close>, so its \<^verbatim>\<open>ValueError\<close> ends the run; after it the value is an \<^verbatim>\<open>int\<close>, so
  only the sign test of line 31 can fire. The result is the delay and what was printed.
\<close>

definition load_delay :: "string option \<Rightarrow> error + (int \<times> log_entry list)" where
  "load_delay env =
     (case (case env of None \<Rightarrow> Inr 5 | Some s \<Rightarrow> py_int s) of
        Inl e \<Rightarrow> Inl e
      | Inr d \<Rightarrow> (if d < 0 then Inr (5, [InvalidDelayWarning d]) else Inr (d, [])))"

section \<open>The rate-limited invoker: \<^verbatim>\<open>process_single_item\<close>\<close>

text \<open>
  The function mutates the dictionary it is given and returns that same object, so
  records live in a store and are passed by address. The state also holds what the call
  does besides: every \<^verbatim>\<open>time.sleep(d)\<close> it pays, and every line it prints to
  \<^verbatim>\<open>sys.stderr\<close>.
\<close>

type_synonym addr = nat

record world =
  heap :: "addr \<Rightarrow> item"
  slept :: "int list"
  stderr :: "log_entry list"

definition set_AI :: "addr \<Rightarrow> json \<Rightarrow> world \<Rightarrow> world" where
  "set_AI a v w = w\<lparr>heap := (heap w)(a := dict_set ''AI'' v (heap w a))\<rparr>"

text \<open>
  \<^verbatim>\<open>time.sleep(d)\<close> on an \<^verbatim>\<open>int\<close> does not always return: a negative length raises
  \<^verbatim>\<open>ValueError\<close>, a length whose nanoseconds do not fit 63 bits raises \<^verbatim>\<open>OverflowError\<close>,
  and the last length below that, 9223372036, is refused by the system call
  (\<^verbatim>\<open>OSError\<close>). Each is an \<^verbatim>\<open>Exception\<close>; the string is its \<^verbatim>\<open>str\<close>.
\<close>

definition sleep_error :: "int \<Rightarrow> (error \<times> string) option" where
  "sleep_error d =
     (if d < 0 then Some (ValueError, ''sleep length must be non-negative'')
      else if d = 9223372036 then Some (OSError, ''[Errno 22] Invalid argument'')
      else if 9223372036 < d
        then Some (OverflowError, ''timestamp too large to convert to C _PyTime_t'')
      else None)"

text \<open>A sleep that raises is not paid.\<close>

definition sleep :: "int \<Rightarrow> world \<Rightarrow> (error \<times> string) option \<times> world" where
  "sleep d w =
     (case sleep_error d of
        None \<Rightarrow> (None, w\<lparr>slept := slept w @ [d]\<rparr>)
      | Some e \<Rightarrow> (Some e, w))"

definition print_err :: "log_entry \<Rightarrow> world \<Rightarrow> world" where
  "print_err l w = w\<lparr>stderr := stderr w @ [l]\<rparr>"

text \<open>
  What \<^verbatim>\<open>chain.invoke(...)\<close> followed by \<^verbatim>\<open>response.model_dump()\<close> does: it yields the
  dumped response, or raises \<^verbatim>\<open>OutputParserException\<close> (with its \<^verbatim>\<open>str(e)\<close>), or raises
  any other \<^verbatim>\<open>Exception\<close> (with its \<^verbatim>\<open>str(e)\<close>).
\<close>

datatype invoke_outcome =
    Returned json
  | OutputParserException string
  | OtherException string

definition marker :: string where
  "marker = ''Function Structure arguments:''"

definition backslash :: char where
  "backslash = CHR 0x5C"

definition quote :: char where
  "quote = CHR 0x27"

text \<open>Lines 79 to 85.\<close>

definition error_sentinel :: json where
  "error_sentinel = JObj
     [(''tldr'', JStr ''Error''),
      (''motivation'', JStr ''Error''),
      (''method'', JStr ''Error''),
      (''result'', JStr ''Error''),
      (''conclusion'', JStr ''Error'')]"

text \<open>Lines 90 to 96.\<close>

definition unexpected_sentinel :: "string \<Rightarrow> json" where
  "unexpected_sentinel msg = JObj
     [(''tldr'', JStr ''Unexpected Error''),
      (''motivation'', JStr msg),
      (''method'', JStr ''N/A''),
      (''result'', JStr ''N/A''),
      (''conclusion'', JStr ''N/A'')]"

text \<open>Line 65 and line 67: the argument string cut out of the message, backslashes doubled.
  \<open>None\<close> is the \<^verbatim>\<open>IndexError\<close> of \<^verbatim>\<open>[1]\<close>.\<close>

definition extract_json_str :: "string \<Rightarrow> string option" where
  "extract_json_str error_msg =
     (case split1_tail marker error_msg of
        None \<Rightarrow> None
      | Some rest \<Rightarrow>
          Some (py_replace [backslash] [backslash, backslash]
                  (py_strip (split_head ''are not valid JSON'' (py_strip rest)))))"

text \<open>
  Lines 88 to 98: the handler of \<^verbatim>\<open>except Exception as e\<close>, then line 113. What the
  sleep of line 98 raises leaves the function: it is raised inside a handler.
\<close>

definition handle_other :: "int \<Rightarrow> addr \<Rightarrow> string \<Rightarrow> world \<Rightarrow> (error + addr) \<times> world" where
  "handle_other delay a msg w =
     (let ident = (case dict_get (heap w a) ''id'' of None \<Rightarrow> JStr ''unknown'' | Some i \<Rightarrow> i);
          w1 = print_err (UnexpectedError ident msg) w;
          w2 = set_AI a (unexpected_sentinel msg) w1
      in (case sleep delay w2 of
            (None, w3) \<Rightarrow> (Inr a, w3)
          | (Some (e, m), w3) \<Rightarrow> (Inl e, w3)))"

text \<open>Lines 78 to 87: the all-\<^verbatim>\<open>"Error"\<close> annotation and the sleep of line 87, then line
  113. This too runs inside a handler.\<close>

definition give_up :: "int \<Rightarrow> addr \<Rightarrow> world \<Rightarrow> (error + addr) \<times> world" where
  "give_up delay a w =
     (case sleep delay (set_AI a error_sentinel w) of
        (None, w1) \<Rightarrow> (Inr a, w1)
      | (Some (e, m), w1) \<Rightarrow> (Inl e, w1))"

text \<open>
  Lines 75 to 87: the handler of the inner \<^verbatim>\<open>try\<close>, for an exception with message
  \<open>json_e\<close>. Its \<^verbatim>\<open>print\<close> subscripts \<^verbatim>\<open>item['id']\<close>, whose \<^verbatim>\<open>KeyError\<close> leaves the
  function; otherwise control falls through to line 79.
\<close>

definition inner_handler ::
  "int \<Rightarrow> addr \<Rightarrow> string \<Rightarrow> string \<Rightarrow> world \<Rightarrow> (error + addr) \<times> world"
where
  "inner_handler delay a json_e json_str w =
     (case dict_get (heap w a) ''id'' of
        None \<Rightarrow> (Inl (KeyError ''id''), w)
      | Some i \<Rightarrow> give_up delay a (print_err (FailedToFixJSON i json_e json_str) w))"

text \<open>
  Lines 59 to 87: the handler of \<^verbatim>\<open>except OutputParserException as e\<close>. \<open>loads\<close> is
  \<^verbatim>\<open>json.loads\<close>, \<open>Inl\<close> carrying the message of the exception it raised. The inner
  \<^verbatim>\<open>try\<close> spans lines 64 to 74: it catches what \<^verbatim>\<open>json.loads\<close> raises and also what
  the sleep of line 73 raises, after \<^verbatim>\<open>item['AI'] = fixed_data\<close>. A failed line 65 would
  leave \<^verbatim>\<open>json_str\<close> unbound for the \<^verbatim>\<open>print\<close> of line 76.
\<close>

definition handle_parse ::
  "(string \<Rightarrow> string + json) \<Rightarrow> int \<Rightarrow> addr \<Rightarrow> string \<Rightarrow> world \<Rightarrow> (error + addr) \<times> world"
where
  "handle_parse loads delay a error_msg w =
     (if py_in marker error_msg then
        (case extract_json_str error_msg of
           None \<Rightarrow> (Inl UnboundLocalError, w)
         | Some json_str \<Rightarrow>
             (case loads json_str of
                Inl json_e \<Rightarrow> inner_handler delay a json_e json_str w
              | Inr fixed_data \<Rightarrow>
                  (case sleep delay (set_AI a fixed_data w) of
                     (None, w1) \<Rightarrow> (Inr a, w1)
                   | (Some (e, m), w1) \<Rightarrow> inner_handler delay a m json_str w1)))
      else give_up delay a w)"

text \<open>
  Lines 48 to 113. \<open>delay\<close> is the global \<^verbatim>\<open>API_DELAY_SECONDS\<close>. A missing
  \<^verbatim>\<open>'summary'\<close> raises \<^verbatim>\<open>KeyError\<close> inside the \<^verbatim>\<open>try\<close>, whose \<^verbatim>\<open>str\<close> is the quoted key.
  When the service answers, the \<^verbatim>\<open>try\<close> body sleeps (line 58): what that sleep raises is
  caught at line 88 like any other exception. If it returns, the \<^verbatim>\<open>else\<close> clause sleeps
  again (line 111), outside every handler.
\<close>

definition process_single_item ::
  "(string \<Rightarrow> string + json) \<Rightarrow> int \<Rightarrow> (string \<Rightarrow> json \<Rightarrow> invoke_outcome) \<Rightarrow>
     addr \<Rightarrow> string \<Rightarrow> world \<Rightarrow> (error + addr) \<times> world"
where
  "process_single_item loads delay chain a language w =
     (case dict_get (heap w a) ''summary'' of
        None \<Rightarrow> handle_other delay a (quote # ''summary'' @ [quote]) w
      | Some content \<Rightarrow>
          (case chain language content of
             Returned dump \<Rightarrow>
               (case sleep delay (set_AI a dump w) of
                  (Some (e, m), w1) \<Rightarrow> handle_other delay a m w1
                | (None, w1) \<Rightarrow>
                    (case sleep delay w1 of
                       (None, w2) \<Rightarrow> (Inr a, w2)
                     | (Some (e, m), w2) \<Rightarrow> (Inl e, w2)))
           | OutputParserException error_msg \<Rightarrow> handle_parse loads delay a error_msg w
           | OtherException msg \<Rightarrow> handle_other delay a msg w))"

section \<open>The scheduler: \<^verbatim>\<open>process_all_items\<close>\<close>

text \<open>
  A future is \<open>None\<close> until its worker has run, then holds what
  \<^verbatim>\<open>process_single_item\<close> returned or raised. The task submitted for index \<open>idx\<close> works
  on the object \<open>data ! idx\<close> itself; \<open>chain idx\<close> is what the service does on that
  task's call. The pool runs the tasks in some order \<open>sched\<close>, each as one step.
\<close>

type_synonym future = "(error + addr) option"

definition run_task ::
  "(string \<Rightarrow> string + json) \<Rightarrow> int \<Rightarrow> (nat \<Rightarrow> string \<Rightarrow> json \<Rightarrow> invoke_outcome) \<Rightarrow>
     addr list \<Rightarrow> string \<Rightarrow> nat \<Rightarrow> future list \<times> world \<Rightarrow> future list \<times> world"
where
  "run_task loads delay chain data language idx s =
     (case s of (futs, w) \<Rightarrow>
        (case process_single_item loads delay (chain idx) (data ! idx) language w of
           (r, w') \<Rightarrow> (futs[idx := Some r], w')))"

definition run_workers ::
  "(string \<Rightarrow> string + json) \<Rightarrow> int \<Rightarrow> (nat \<Rightarrow> string \<Rightarrow> json \<Rightarrow> invoke_outcome) \<Rightarrow>
     addr list \<Rightarrow> string \<Rightarrow> nat list \<Rightarrow> world \<Rightarrow> future list \<times> world"
where
  "run_workers loads delay chain data language sched w =
     fold (run_task loads delay chain data language) sched
       (replicate (length data) None, w)"

text \<open>
  Lines 137 to 149, one turn of the loop over \<^verbatim>\<open>as_completed\<close>. The loop state is the
  result list, the indices assigned so far, and the world. A future that has not run is
  never yielded.
\<close>

definition collect_step ::
  "addr list \<Rightarrow> future list \<Rightarrow> nat \<Rightarrow>
     addr option list \<times> nat list \<times> world \<Rightarrow> addr option list \<times> nat list \<times> world"
where
  "collect_step data futs idx s =
     (case s of (processed_data, written, w) \<Rightarrow>
        (case futs ! idx of
           None \<Rightarrow> (processed_data, written, w)
         | Some (Inr result) \<Rightarrow> (processed_data[idx := Some result], written @ [idx], w)
         | Some (Inl e) \<Rightarrow>
             (processed_data[idx := Some (data ! idx)], written @ [idx],
              print_err (ItemException idx e) w)))"

definition collect ::
  "addr list \<Rightarrow> future list \<Rightarrow> nat list \<Rightarrow> world \<Rightarrow> addr option list \<times> nat list \<times> world"
where
  "collect data futs completed w =
     fold (collect_step data futs) completed (replicate (length data) None, [], w)"

text \<open>
  Lines 115 to 151. \<open>completed\<close> is the order in which \<^verbatim>\<open>as_completed\<close> yields the
  futures. \<^verbatim>\<open>ThreadPoolExecutor\<close> raises \<^verbatim>\<open>ValueError\<close> unless \<^verbatim>\<open>max_workers\<close> is positive.
  A slot of the result is \<open>None\<close> (Python's \<^verbatim>\<open>None\<close>) or the address of a record.
\<close>

definition process_all_items ::
  "(string \<Rightarrow> string + json) \<Rightarrow> int \<Rightarrow> (nat \<Rightarrow> string \<Rightarrow> json \<Rightarrow> invoke_outcome) \<Rightarrow>
     nat list \<Rightarrow> nat list \<Rightarrow>
     addr list \<Rightarrow> string \<Rightarrow> string \<Rightarrow> int \<Rightarrow> world \<Rightarrow> (error + addr option list) \<times> world"
where
  "process_all_items loads delay chain sched completed data model_name language max_workers w =
     (let w1 = print_err (ConnectTo model_name) w in
      if max_workers \<le> 0 then (Inl ValueError, w1)
      else
        (case run_workers loads delay chain data language sched w1 of
           (futs, w2) \<Rightarrow>
             (case collect data futs completed w2 of
                (processed_data, written, w3) \<Rightarrow> (Inr processed_data, w3))))"

section \<open>The driver: \<^verbatim>\<open>main\<close>\<close>

text \<open>Line 159.\<close>

definition target_file :: "string \<Rightarrow> string \<Rightarrow> string" where
  "target_file path language =
     py_replace ''.jsonl'' (''_AI_enhanced_'' @ language @ ''.jsonl'') path"

text \<open>
  What a set of identifiers compares: \<^verbatim>\<open>True\<close> and \<^verbatim>\<open>1\<close> are equal and hash alike,
  lists and dictionaries are unhashable (\<^verbatim>\<open>TypeError\<close>).
\<close>

datatype pykey = KNone | KNum int | KStr string

fun py_key :: "json \<Rightarrow> error + pykey" where
  "py_key JNull = Inr KNone"
| "py_key (JBool b) = Inr (KNum (if b then 1 else 0))"
| "py_key (JInt i) = Inr (KNum i)"
| "py_key (JStr s) = Inr (KStr s)"
| "py_key (JArr xs) = Inl TypeError"
| "py_key (JObj d) = Inl TypeError"

text \<open>\<^verbatim>\<open>item['id']\<close> as a set element.\<close>

definition item_key :: "item \<Rightarrow> error + pykey" where
  "item_key d =
     (case dict_get d ''id'' of None \<Rightarrow> Inl (KeyError ''id'') | Some v \<Rightarrow> py_key v)"

text \<open>Lines 171 to 176: the loop, with \<^verbatim>\<open>seen_ids\<close> and \<^verbatim>\<open>unique_data\<close> as accumulators.\<close>

fun dedup_loop ::
  "(addr \<Rightarrow> item) \<Rightarrow> addr list \<Rightarrow> pykey set \<Rightarrow> addr list \<Rightarrow> error + addr list"
where
  "dedup_loop h [] seen_ids unique_data = Inr unique_data"
| "dedup_loop h (a # rest) seen_ids unique_data =
     (case item_key (h a) of
        Inl e \<Rightarrow> Inl e
      | Inr k \<Rightarrow>
          (if k \<notin> seen_ids then dedup_loop h rest (insert k seen_ids) (unique_data @ [a])
           else dedup_loop h rest seen_ids unique_data))"

definition dedup :: "(addr \<Rightarrow> item) \<Rightarrow> addr list \<Rightarrow> error + addr list" where
  "dedup h data = dedup_loop h data {} []"

text \<open>
  The same, as the specification words it: the records whose identifier no earlier record
  of the sequence has.
\<close>

fun first_occurrences :: "('a \<Rightarrow> 'k) \<Rightarrow> 'a list \<Rightarrow> 'a list" where
  "first_occurrences key [] = []"
| "first_occurrences key (x # xs) =
     x # first_occurrences key (filter (\<lambda>y. key y \<noteq> key x) xs)"

text \<open>
  A file is the list of the JSON values on its lines. Each line read becomes a new object;
  they get the addresses \<open>0, 1, \<dots>\<close> in order. A line that is not an object cannot be
  subscripted by \<^verbatim>\<open>'id'\<close>.
\<close>

fun read_items :: "json list \<Rightarrow> error + item list" where
  "read_items [] = Inr []"
| "read_items (JObj d # rest) =
     (case read_items rest of Inl e \<Rightarrow> Inl e | Inr ds \<Rightarrow> Inr (d # ds))"
| "read_items (v # rest) = Inl TypeError"

text \<open>Line 192: \<^verbatim>\<open>json.dumps\<close> of a slot, read when the file is written.\<close>

definition dump_slot :: "(addr \<Rightarrow> item) \<Rightarrow> addr option \<Rightarrow> json" where
  "dump_slot h slot = (case slot of None \<Rightarrow> JNull | Some a \<Rightarrow> JObj (h a))"

text \<open>Lines 153 to 192. The result is the exception that ended the run, if any, the
  files and the world.\<close>

definition main ::
  "(string \<Rightarrow> string + json) \<Rightarrow> int \<Rightarrow> (nat \<Rightarrow> string \<Rightarrow> json \<Rightarrow> invoke_outcome) \<Rightarrow>
     nat list \<Rightarrow> nat list \<Rightarrow>
     string \<Rightarrow> int \<Rightarrow> string \<Rightarrow> string \<Rightarrow> (string \<rightharpoonup> json list) \<Rightarrow> world \<Rightarrow>
     error option \<times> (string \<rightharpoonup> json list) \<times> world"
where
  "main loads delay chain sched completed path max_workers model_name language fs w =
     (let target = target_file path language;
          fs1 = (if fs target \<noteq> None then fs(target := None) else fs);
          w1 = (if fs target \<noteq> None then print_err (RemovedExistingFile target) w else w)
      in
        (case fs1 path of
           None \<Rightarrow> (Some FileNotFoundError, fs1, w1)
         | Some lines \<Rightarrow>
             (case read_items lines of
                Inl e \<Rightarrow> (Some e, fs1, w1)
              | Inr items \<Rightarrow>
                  (let w2 = w1\<lparr>heap := (\<lambda>a. if a < length items then items ! a else [])\<rparr>
                   in
                     (case dedup (heap w2) [0..<length items] of
                        Inl e \<Rightarrow> (Some e, fs1, w2)
                      | Inr unique_data \<Rightarrow>
                          (case process_all_items loads delay chain sched completed unique_data
                                  model_name language max_workers
                                  (print_err (OpenFile path) w2) of
                             (Inl e, w3) \<Rightarrow> (Some e, fs1, w3)
                           | (Inr processed_data, w3) \<Rightarrow>
                               (None,
                                fs1(target \<mapsto> map (dump_slot (heap w3)) processed_data),
                                w3)))))))"

section \<open>Concrete inputs\<close>

text \<open>One record in the store, a decoder that accepts only \<^verbatim>\<open>{}\<close>, and services that
  fail in each of the ways the invoker distinguishes.\<close>

definition example_item :: item where
  "example_item = [(''id'', JInt 1), (''summary'', JStr ''A'')]"

definition example_world :: world where
  "example_world = \<lparr>heap = (\<lambda>a. []) (0 := example_item), slept = [], stderr = []\<rparr>"

definition loads_stub :: "string \<Rightarrow> string + json" where
  "loads_stub s = (if s = ''{}'' then Inr (JObj []) else Inl ''Expecting value'')"



definition broken_msg :: string where
  "broken_msg = ''Function Structure arguments: {oops are not valid JSON''"

definition broken_chain :: "string \<Rightarrow> json \<Rightarrow> invoke_outcome" where
  "broken_chain language content = OutputParserException broken_msg"

definition failing_chain :: "string \<Rightarrow> json \<Rightarrow> invoke_outcome" where
  "failing_chain language content = OtherException ''Connection error.''"

definition example_fs :: "string \<rightharpoonup> json list" where
  "example_fs = [''data.json'' \<mapsto> [JObj example_item]]"

definition jsonl_fs :: "string \<rightharpoonup> json list" where
  "jsonl_fs = [''data.jsonl'' \<mapsto> [JObj example_item]]"

definition answering_chain :: "string \<Rightarrow> json \<Rightarrow> invoke_outcome" where
  "answering_chain language content = Returned (JObj [(''tldr'', JStr ''t'')])"

text \<open>Two records, the second without an \<^verbatim>\<open>id\<close>; the service answers the first task and
  returns undecodable output to the second.\<close>

definition two_records :: world where
  "two_records =
     \<lparr>heap = (\<lambda>a. []) (0 := example_item, 1 := [(''summary'', JStr ''B'')]),
      slept = [], stderr = []\<rparr>"

definition mixed_chain :: "nat \<Rightarrow> string \<Rightarrow> json \<Rightarrow> invoke_outcome" where
  "mixed_chain idx = (if idx = 0 then answering_chain else broken_chain)"


text \<open>Three records in a store, the first two with the same \<^verbatim>\<open>id\<close>.\<close>

definition three_records :: "addr \<Rightarrow> item" where
  "three_records =
     (\<lambda>a. []) (0 := [(''id'', JInt 1), (''summary'', JStr ''A'')],
               1 := [(''id'', JInt 1), (''summary'', JStr ''B'')],
               2 := [(''id'', JInt 2), (''summary'', JStr ''C'')])"

section \<open>Properties of the invoker\<close>

lemma dict_get_set_same: "dict_get (dict_set k v d) k = Some v"
  by (induction d) (auto simp: dict_get_def)

lemma dict_get_set_other: "k' \<noteq> k \<Longrightarrow> dict_get (dict_set k v d) k' = dict_get d k'"
  by (induction d) (auto simp: dict_get_def)



lemma sleep_returns: "sleep_error d = None \<Longrightarrow> sleep d w = (None, w\<lparr>slept := slept w @ [d]\<rparr>)"
  by (simp add: sleep_def)

lemma sleep_raises: "sleep_error d = Some (e, m) \<Longrightarrow> sleep d w = (Some (e, m), w)"
  by (simp add: sleep_def)


lemma sleep_error_5: "sleep_error 5 = None"
  by (simp add: sleep_error_def)


lemmas psi_defs = process_single_item_def handle_parse_def handle_other_def give_up_def
  inner_handler_def set_AI_def print_err_def



lemma extract_broken: "extract_json_str broken_msg = Some ''{oops''"
  by (simp add: extract_json_str_def broken_msg_def marker_def py_strip_def py_isspace_def backslash_def)

lemma py_in_broken: "py_in marker broken_msg"
  by (simp add: broken_msg_def marker_def)

text \<open>With a delay that \<^verbatim>\<open>time.sleep\<close> accepts: two sleeps when the service answers, one on
  every other path that returns.\<close>

lemma psi_returned_sleeps:
  "sleep_error delay = None \<Longrightarrow>
   dict_get (heap w a) ''summary'' = Some c \<Longrightarrow> chain language c = Returned d \<Longrightarrow>
   slept (snd (process_single_item loads delay chain a language w)) = slept w @ [delay, delay]"
  by (simp add: psi_defs sleep_returns)

lemma psi_other_sleeps:
  "sleep_error delay = None \<Longrightarrow>
   dict_get (heap w a) ''summary'' = Some c \<Longrightarrow> chain language c = OtherException m \<Longrightarrow>
   slept (snd (process_single_item loads delay chain a language w)) = slept w @ [delay]"
  by (simp add: psi_defs Let_def sleep_returns)

lemma psi_parse_sleeps:
  "sleep_error delay = None \<Longrightarrow>
   dict_get (heap w a) ''summary'' = Some c \<Longrightarrow> chain language c = OutputParserException m \<Longrightarrow>
   fst (process_single_item loads delay chain a language w) = Inr a' \<Longrightarrow>
   slept (snd (process_single_item loads delay chain a language w)) = slept w @ [delay]"
  by (auto simp add: psi_defs Let_def sleep_returns split: option.splits sum.splits if_splits)

text \<open>
  Claim C3: every call of \<^verbatim>\<open>process_single_item\<close> pays the pacing delay exactly once.
  On the path where the service answers, the call sleeps twice: once at line 58, inside
  the \<^verbatim>\<open>try\<close>, and once at line 111, in its \<^verbatim>\<open>else\<close> clause. With a delay of 5 the
  call of the record below sleeps 5 and 5 again.
\<close>

theorem success_sleeps_twice:
  "slept (snd (process_single_item loads_stub 5 answering_chain 0 ''Chinese'' example_world))
     = [5, 5]"
  by (simp add: psi_defs example_world_def example_item_def dict_get_def answering_chain_def
      sleep_returns sleep_error_5)

text \<open>What a call leaves in the \<^verbatim>\<open>AI\<close> field and whether it returns, path by path.\<close>

lemma handle_other_AI:
  "dict_get (heap (snd (handle_other delay a msg w)) a) ''AI'' = Some (unexpected_sentinel msg)"
  by (cases "sleep_error delay")
     (auto simp: handle_other_def Let_def set_AI_def print_err_def sleep_returns sleep_raises
        dict_get_set_same)


lemma give_up_AI:
  "dict_get (heap (snd (give_up delay a w)) a) ''AI'' = Some error_sentinel"
  by (cases "sleep_error delay")
     (auto simp: give_up_def set_AI_def sleep_returns sleep_raises dict_get_set_same)


lemma inner_handler_AI:
  "dict_get (heap w a) ''id'' = Some i \<Longrightarrow>
   dict_get (heap (snd (inner_handler delay a json_e json_str w)) a) ''AI'' = Some error_sentinel"
  by (simp add: inner_handler_def give_up_AI)











text \<open>
  Claim C7: for a record with an \<^verbatim>\<open>id\<close> and a \<^verbatim>\<open>summary\<close>, an exception other than a
  parse failure leaves the annotation \<^verbatim>\<open>tldr = "Unexpected Error"\<close>, \<^verbatim>\<open>motivation\<close> the
  message of the exception, and \<^verbatim>\<open>"N/A"\<close> in the three other fields; a parse failure whose
  repair fails (no marker, or an argument string that does not decode) leaves \<^verbatim>\<open>"Error"\<close>
  in all five fields.
\<close>

theorem failure_sentinels:
  assumes "dict_get (heap w a) ''summary'' = Some c"
    and "dict_get (heap w a) ''id'' = Some i"
  shows "(chain language c = OtherException msg \<longrightarrow>
            dict_get (heap (snd (process_single_item loads delay chain a language w)) a) ''AI'' =
              Some (JObj [(''tldr'', JStr ''Unexpected Error''), (''motivation'', JStr msg),
                          (''method'', JStr ''N/A''), (''result'', JStr ''N/A''),
                          (''conclusion'', JStr ''N/A'')]))
       \<and> (chain language c = OutputParserException error_msg \<longrightarrow>
            (\<not> py_in marker error_msg \<or>
             (\<exists>json_str json_e. extract_json_str error_msg = Some json_str
                                \<and> loads json_str = Inl json_e)) \<longrightarrow>
            dict_get (heap (snd (process_single_item loads delay chain a language w)) a) ''AI'' =
              Some (JObj [(''tldr'', JStr ''Error''), (''motivation'', JStr ''Error''),
                          (''method'', JStr ''Error''), (''result'', JStr ''Error''),
                          (''conclusion'', JStr ''Error'')]))"
proof (intro conjI impI)
  assume "chain language c = OtherException msg"
  with assms show "dict_get (heap (snd (process_single_item loads delay chain a language w)) a) ''AI'' =
              Some (JObj [(''tldr'', JStr ''Unexpected Error''), (''motivation'', JStr msg),
                          (''method'', JStr ''N/A''), (''result'', JStr ''N/A''),
                          (''conclusion'', JStr ''N/A'')])"
    by (simp add: process_single_item_def handle_other_AI unexpected_sentinel_def)
next
  assume p: "chain language c = OutputParserException error_msg"
    and r: "\<not> py_in marker error_msg \<or>
             (\<exists>json_str json_e. extract_json_str error_msg = Some json_str
                                \<and> loads json_str = Inl json_e)"
  show "dict_get (heap (snd (process_single_item loads delay chain a language w)) a) ''AI'' =
              Some (JObj [(''tldr'', JStr ''Error''), (''motivation'', JStr ''Error''),
                          (''method'', JStr ''Error''), (''result'', JStr ''Error''),
                          (''conclusion'', JStr ''Error'')])"
  proof (cases "py_in marker error_msg")
    case False
    with assms p show ?thesis
      by (simp add: process_single_item_def handle_parse_def give_up_AI error_sentinel_def)
  next
    case True
    with r obtain json_str json_e where "extract_json_str error_msg = Some json_str"
      and "loads json_str = Inl json_e" by blast
    with True assms p show ?thesis
      by (simp add: process_single_item_def handle_parse_def inner_handler_AI
          error_sentinel_def)
  qed
qed

theorem failure_sentinels_witness:
  "dict_get (heap example_world 0) ''summary'' = Some (JStr ''A'') \<and>
   dict_get (heap example_world 0) ''id'' = Some (JInt 1) \<and>
   failing_chain ''Chinese'' (JStr ''A'') = OtherException ''Connection error.'' \<and>
   dict_get (heap (snd (process_single_item loads_stub 5 failing_chain 0 ''Chinese'' example_world)) 0) ''AI'' =
     Some (JObj [(''tldr'', JStr ''Unexpected Error''), (''motivation'', JStr ''Connection error.''),
                 (''method'', JStr ''N/A''), (''result'', JStr ''N/A''),
                 (''conclusion'', JStr ''N/A'')]) \<and>
   broken_chain ''Chinese'' (JStr ''A'') = OutputParserException broken_msg \<and>
   extract_json_str broken_msg = Some ''{oops'' \<and>
   loads_stub ''{oops'' = Inl ''Expecting value'' \<and>
   dict_get (heap (snd (process_single_item loads_stub 5 broken_chain 0 ''Chinese'' example_world)) 0) ''AI'' =
     Some (JObj [(''tldr'', JStr ''Error''), (''motivation'', JStr ''Error''),
                 (''method'', JStr ''Error''), (''result'', JStr ''Error''),
                 (''conclusion'', JStr ''Error'')])"
proof -
  have h1: "dict_get (heap example_world 0) ''summary'' = Some (JStr ''A'')"
    by (simp add: example_world_def example_item_def dict_get_def)
  have h2: "dict_get (heap example_world 0) ''id'' = Some (JInt 1)"
    by (simp add: example_world_def example_item_def dict_get_def)
  have f: "failing_chain ''Chinese'' (JStr ''A'') = OtherException ''Connection error.''"
    by (simp add: failing_chain_def)
  have b: "broken_chain ''Chinese'' (JStr ''A'') = OutputParserException broken_msg"
    by (simp add: broken_chain_def)
  have l: "loads_stub ''{oops'' = Inl ''Expecting value''"
    by (simp add: loads_stub_def)
  note A = failure_sentinels [where chain = failing_chain and language = "''Chinese''"
      and loads = loads_stub and delay = 5 and msg = "''Connection error.''", OF h1 h2]
  note B = failure_sentinels [where chain = broken_chain and language = "''Chinese''"
      and loads = loads_stub and delay = 5 and error_msg = broken_msg, OF h1 h2]
  from A f have a: "dict_get (heap (snd (process_single_item loads_stub 5 failing_chain 0 ''Chinese'' example_world)) 0) ''AI'' =
     Some (JObj [(''tldr'', JStr ''Unexpected Error''), (''motivation'', JStr ''Connection error.''),
                 (''method'', JStr ''N/A''), (''result'', JStr ''N/A''),
                 (''conclusion'', JStr ''N/A'')])" by blast
  from B b extract_broken l have c: "dict_get (heap (snd (process_single_item loads_stub 5 broken_chain 0 ''Chinese'' example_world)) 0) ''AI'' =
     Some (JObj [(''tldr'', JStr ''Error''), (''motivation'', JStr ''Error''),
                 (''method'', JStr ''Error''), (''result'', JStr ''Error''),
                 (''conclusion'', JStr ''Error'')])" by blast
  from h1 h2 f a b extract_broken l c show ?thesis by blast
qed

section \<open>Properties of the configuration and of the string replacement\<close>

text \<open>
  Claim C8: a value of \<^verbatim>\<open>API_DELAY_SECONDS\<close> that is not a non-negative integer makes the
  program fall back to 5 with a warning. For a value that is not an integer at all the
  conversion of line 28 raises before the test of line 31 is reached: \<^verbatim>\<open>"abc"\<close> ends the
  run with \<^verbatim>\<open>ValueError\<close>.
\<close>

theorem load_delay_not_a_number:
  "load_delay (Some ''abc'') = Inl ValueError"
  by (simp add: load_delay_def py_int_def py_strip_def py_isspace_def digit_val_def)

text \<open>A negative integer does take the fallback, and any string \<^verbatim>\<open>int\<close> rejects ends the run.\<close>

lemma load_delay_negative:
  "load_delay (Some ''-3'') = Inr (5, [InvalidDelayWarning (- 3)])"
  by (simp add: load_delay_def py_int_def py_strip_def py_isspace_def digit_val_def)

lemma load_delay_rejects: "py_int s = Inl e \<Longrightarrow> load_delay (Some s) = Inl e"
  by (simp add: load_delay_def)

lemma py_in_iff: "py_in sub s \<longleftrightarrow> (\<exists>a b. s = a @ sub @ b)"
proof (induction s)
  case Nil
  then show ?case by auto
next
  case (Cons c cs)
  show ?case
  proof
    assume "py_in sub (c # cs)"
    then consider "prefix sub (c # cs)" | "py_in sub cs" by auto
    then show "\<exists>a b. c # cs = a @ sub @ b"
    proof cases
      case 1
      then obtain b where "c # cs = sub @ b" by (auto simp: prefix_def)
      then have "c # cs = [] @ sub @ b" by simp
      then show ?thesis by blast
    next
      case 2
      then obtain a b where "cs = a @ sub @ b" using Cons.IH by blast
      then have "c # cs = (c # a) @ sub @ b" by simp
      then show ?thesis by blast
    qed
  next
    assume "\<exists>a b. c # cs = a @ sub @ b"
    then obtain a b where ab: "c # cs = a @ sub @ b" by blast
    show "py_in sub (c # cs)"
    proof (cases a)
      case Nil
      with ab have "prefix sub (c # cs)" by (simp add: prefix_def)
      then show ?thesis by simp
    next
      case (Cons x a')
      with ab have "cs = a' @ sub @ b" by simp
      then have "py_in sub cs" using Cons.IH by blast
      then show ?thesis by simp
    qed
  qed
qed

lemma py_replace_absent: "old \<noteq> [] \<Longrightarrow> \<not> py_in old s \<Longrightarrow> py_replace old new s = s"
  by (induction s) auto

lemma jsonl_no_overlap:
  assumes "prefix ''.jsonl'' (a @ ''.jsonl'' @ b)" and "a \<noteq> []"
  shows "prefix ''.jsonl'' a"
proof -
  obtain c1 a1 where a: "a = c1 # a1" using assms(2) by (cases a) auto
  show ?thesis
  proof (cases a1)
    case Nil with a assms(1) show ?thesis by simp
  next
    case (Cons c2 a2)
    note l2 = Cons
    show ?thesis
    proof (cases a2)
      case Nil with a l2 assms(1) show ?thesis by simp
    next
      case (Cons c3 a3)
      note l3 = Cons
      show ?thesis
      proof (cases a3)
        case Nil with a l2 l3 assms(1) show ?thesis by simp
      next
        case (Cons c4 a4)
        note l4 = Cons
        show ?thesis
        proof (cases a4)
          case Nil with a l2 l3 l4 assms(1) show ?thesis by simp
        next
          case (Cons c5 a5)
          note l5 = Cons
          show ?thesis
          proof (cases a5)
            case Nil with a l2 l3 l4 l5 assms(1) show ?thesis by simp
          next
            case (Cons c6 a6)
            with a l2 l3 l4 l5 assms(1) show ?thesis by simp
          qed
        qed
      qed
    qed
  qed
qed

lemma py_replace_jsonl_split:
  "py_replace ''.jsonl'' new (a @ ''.jsonl'' @ b) =
     py_replace ''.jsonl'' new a @ new @ py_replace ''.jsonl'' new b"
proof (induction a rule: length_induct)
  case (1 a)
  show ?case
  proof (cases a)
    case Nil
    then show ?thesis by simp
  next
    case (Cons c cs)
    show ?thesis
    proof (cases "prefix ''.jsonl'' a")
      case True
      then obtain r where r: "a = ''.jsonl'' @ r" by (auto simp: prefix_def)
      then have "length r < length a" by simp
      then have "py_replace ''.jsonl'' new (r @ ''.jsonl'' @ b) =
           py_replace ''.jsonl'' new r @ new @ py_replace ''.jsonl'' new b"
        using 1 by blast
      then show ?thesis using r by simp
    next
      case False
      then have np: "\<not> prefix ''.jsonl'' (a @ ''.jsonl'' @ b)"
        using jsonl_no_overlap Cons by blast
      have "length cs < length a" using Cons by simp
      then have ih: "py_replace ''.jsonl'' new (cs @ ''.jsonl'' @ b) =
           py_replace ''.jsonl'' new cs @ new @ py_replace ''.jsonl'' new b"
        using 1 by blast
      from False Cons have f1: "py_replace ''.jsonl'' new a = c # py_replace ''.jsonl'' new cs"
        by auto
      from np Cons have f2: "py_replace ''.jsonl'' new (a @ ''.jsonl'' @ b)
          = c # py_replace ''.jsonl'' new (cs @ ''.jsonl'' @ b)"
        by auto
      show ?thesis using f1 f2 ih by simp
    qed
  qed
qed

section \<open>Properties of the scheduler\<close>

text \<open>What one call of the invoker touches.\<close>

lemma sleep_heap: "heap (snd (sleep d w)) = heap w"
  by (simp add: sleep_def split: option.splits)

lemmas psi_all = psi_defs sleep_def Let_def

lemma psi_heap_frame:
  "b \<noteq> a \<Longrightarrow> heap (snd (process_single_item loads delay chain a language w)) b = heap w b"
  by (auto simp: psi_all split: option.splits sum.splits invoke_outcome.splits prod.splits)

lemma psi_result_addr:
  "fst (process_single_item loads delay chain a language w) = Inr a' \<Longrightarrow> a' = a"
  by (auto simp: psi_all split: option.splits sum.splits invoke_outcome.splits prod.splits
      if_splits)

lemma psi_AI_or_unchanged:
  "(\<exists>v. dict_get (heap (snd (process_single_item loads delay chain a language w)) a) ''AI''
      = Some v)
   \<or> heap (snd (process_single_item loads delay chain a language w)) a = heap w a"
  by (auto simp: psi_all dict_get_set_same
      split: option.splits sum.splits invoke_outcome.splits prod.splits if_splits)

lemma psi_keeps_fields:
  "k \<noteq> ''AI'' \<Longrightarrow>
   dict_get (heap (snd (process_single_item loads delay chain a language w)) a) k
     = dict_get (heap w a) k"
  by (auto simp: psi_all dict_get_set_other
      split: option.splits sum.splits invoke_outcome.splits prod.splits)

lemma psi_local:
  assumes "heap w1 a = heap w2 a"
  shows "fst (process_single_item loads delay chain a language w1)
           = fst (process_single_item loads delay chain a language w2)
       \<and> heap (snd (process_single_item loads delay chain a language w1)) a
           = heap (snd (process_single_item loads delay chain a language w2)) a"
  using assms
  by (auto simp: psi_all split: option.splits sum.splits invoke_outcome.splits prod.splits)

text \<open>The worker phase, for any state of the futures and of the world.\<close>

lemma run_task_eq:
  "run_task loads delay chain data language idx (futs, w) =
     (futs[idx := Some (fst (process_single_item loads delay (chain idx) (data ! idx) language w))],
      snd (process_single_item loads delay (chain idx) (data ! idx) language w))"
  by (simp add: run_task_def split: prod.splits)

lemma workers_length:
  "length (fst (fold (run_task loads delay chain data language) sched (futs, w))) = length futs"
  by (induction sched arbitrary: futs w) (simp_all add: run_task_eq)

lemma workers_frame:
  "\<forall>i\<in>set sched. data ! i \<noteq> b \<Longrightarrow>
   heap (snd (fold (run_task loads delay chain data language) sched (futs, w))) b = heap w b"
  by (induction sched arbitrary: futs w) (simp_all add: run_task_eq psi_heap_frame)

lemma workers_other_future:
  "i \<notin> set sched \<Longrightarrow>
   fst (fold (run_task loads delay chain data language) sched (futs, w)) ! i = futs ! i"
  by (induction sched arbitrary: futs w) (simp_all add: run_task_eq)

lemma workers_alone:
  assumes "distinct sched" and "\<forall>i\<in>set sched. i < length futs"
    and "inj_on ((!) data) (set sched)" and "i \<in> set sched"
  shows "fst (fold (run_task loads delay chain data language) sched (futs, w)) ! i
           = Some (fst (process_single_item loads delay (chain i) (data ! i) language w))
       \<and> heap (snd (fold (run_task loads delay chain data language) sched (futs, w))) (data ! i)
           = heap (snd (process_single_item loads delay (chain i) (data ! i) language w)) (data ! i)"
  using assms
proof (induction sched arbitrary: futs w)
  case Nil
  then show ?case by simp
next
  case (Cons j rest)
  let ?r = "fst (process_single_item loads delay (chain j) (data ! j) language w)"
  let ?w = "snd (process_single_item loads delay (chain j) (data ! j) language w)"
  have step: "fold (run_task loads delay chain data language) (j # rest) (futs, w)
      = fold (run_task loads delay chain data language) rest (futs[j := Some ?r], ?w)"
    by (simp add: run_task_eq)
  have jrest: "j \<notin> set rest" and drest: "distinct rest" using Cons.prems(1) by auto
  have inj: "inj_on ((!) data) (set rest)"
    using Cons.prems(3) by (auto intro: inj_on_subset)
  have other: "\<forall>k\<in>set rest. data ! k \<noteq> data ! j"
    using Cons.prems(3) jrest by (auto simp: inj_on_def)
  show ?case
  proof (cases "i = j")
    case True
    have "fst (fold (run_task loads delay chain data language) rest (futs[j := Some ?r], ?w)) ! j
        = (futs[j := Some ?r]) ! j"
      using jrest by (rule workers_other_future)
    moreover have "j < length futs" using Cons.prems(2) by simp
    moreover have "heap (snd (fold (run_task loads delay chain data language) rest
        (futs[j := Some ?r], ?w))) (data ! j) = heap ?w (data ! j)"
      using other by (rule workers_frame)
    ultimately show ?thesis using True step by simp
  next
    case False
    then have irest: "i \<in> set rest" using Cons.prems(4) by simp
    have len: "\<forall>k\<in>set rest. k < length (futs[j := Some ?r])" using Cons.prems(2) by simp
    note ih = Cons.IH [OF drest len inj irest, of ?w]
    have "data ! i \<noteq> data ! j" using other irest by blast
    then have "heap ?w (data ! i) = heap w (data ! i)" by (rule psi_heap_frame)
    then have "fst (process_single_item loads delay (chain i) (data ! i) language ?w)
           = fst (process_single_item loads delay (chain i) (data ! i) language w)
       \<and> heap (snd (process_single_item loads delay (chain i) (data ! i) language ?w)) (data ! i)
           = heap (snd (process_single_item loads delay (chain i) (data ! i) language w)) (data ! i)"
      by (rule psi_local)
    with ih step show ?thesis by simp
  qed
qed

text \<open>Without distinct addresses: every task that ran left a result about its own record.\<close>

lemma workers_ran:
  assumes "\<forall>i\<in>set sched. i < length futs" and "i \<in> set sched"
  shows "\<exists>r. fst (fold (run_task loads delay chain data language) sched (futs, w)) ! i = Some r
           \<and> (\<forall>a'. r = Inr a' \<longrightarrow> a' = data ! i)"
  using assms
proof (induction sched arbitrary: futs w)
  case Nil
  then show ?case by simp
next
  case (Cons j rest)
  let ?r = "fst (process_single_item loads delay (chain j) (data ! j) language w)"
  let ?w = "snd (process_single_item loads delay (chain j) (data ! j) language w)"
  have step: "fold (run_task loads delay chain data language) (j # rest) (futs, w)
      = fold (run_task loads delay chain data language) rest (futs[j := Some ?r], ?w)"
    by (simp add: run_task_eq)
  have len: "\<forall>k\<in>set rest. k < length (futs[j := Some ?r])" using Cons.prems(1) by simp
  show ?case
  proof (cases "i \<in> set rest")
    case True
    from Cons.IH [OF len True, of ?w] step show ?thesis by simp
  next
    case False
    then have ij: "i = j" using Cons.prems(2) by simp
    have "fst (fold (run_task loads delay chain data language) rest (futs[j := Some ?r], ?w)) ! i
        = (futs[j := Some ?r]) ! i"
      using False by (rule workers_other_future)
    moreover have "j < length futs" using Cons.prems(1) by simp
    ultimately have "fst (fold (run_task loads delay chain data language) (j # rest) (futs, w)) ! i
        = Some ?r" using ij step by simp
    moreover have "\<forall>a'. ?r = Inr a' \<longrightarrow> a' = data ! i"
      using ij psi_result_addr by blast
    ultimately show ?thesis by blast
  qed
qed

text \<open>The collection phase.\<close>

lemma collect_step_eq:
  "collect_step data futs idx (pd, written, w) =
     (case futs ! idx of
        None \<Rightarrow> (pd, written, w)
      | Some r \<Rightarrow>
          (pd[idx := Some (case r of Inl e \<Rightarrow> data ! idx | Inr result \<Rightarrow> result)],
           written @ [idx],
           (case r of Inl e \<Rightarrow> print_err (ItemException idx e) w | Inr result \<Rightarrow> w)))"
  by (simp add: collect_step_def split: option.splits sum.splits)

lemma collect_length:
  "length (fst (fold (collect_step data futs) completed (pd, written, w))) = length pd"
  by (induction completed arbitrary: pd written w)
     (simp_all add: collect_step_eq split: option.splits)

lemma collect_heap:
  "heap (snd (snd (fold (collect_step data futs) completed (pd, written, w)))) = heap w"
  by (induction completed arbitrary: pd written w)
     (simp_all add: collect_step_eq print_err_def split: option.splits sum.splits)

lemma collect_written:
  "\<forall>idx\<in>set completed. futs ! idx \<noteq> None \<Longrightarrow>
   fst (snd (fold (collect_step data futs) completed (pd, written, w))) = written @ completed"
  by (induction completed arbitrary: pd written w)
     (auto simp: collect_step_eq split: option.splits)

lemma collect_other_slot:
  "i \<notin> set completed \<Longrightarrow>
   fst (fold (collect_step data futs) completed (pd, written, w)) ! i = pd ! i"
  by (induction completed arbitrary: pd written w)
     (auto simp: collect_step_eq split: option.splits)

lemma collect_slot:
  assumes "i \<in> set completed" and "i < length pd" and "futs ! i = Some r"
  shows "fst (fold (collect_step data futs) completed (pd, written, w)) ! i
           = Some (case r of Inl e \<Rightarrow> data ! i | Inr result \<Rightarrow> result)"
  using assms
proof (induction completed arbitrary: pd written w)
  case Nil
  then show ?case by simp
next
  case (Cons j rest)
  obtain pd' written' w' where s: "collect_step data futs j (pd, written, w) = (pd', written', w')"
    by (cases "collect_step data futs j (pd, written, w)") auto
  have len: "length pd' = length pd"
    using s by (auto simp: collect_step_eq split: option.splits)
  show ?case
  proof (cases "i \<in> set rest")
    case True
    from Cons.IH [OF True, of pd' written' w'] len Cons.prems s show ?thesis by simp
  next
    case False
    then have ij: "i = j" using Cons.prems(1) by simp
    have "pd' ! i = Some (case r of Inl e \<Rightarrow> data ! i | Inr result \<Rightarrow> result)"
      using s ij Cons.prems(2,3) by (auto simp: collect_step_eq)
    moreover have "fst (fold (collect_step data futs) rest (pd', written', w')) ! i = pd' ! i"
      using False by (rule collect_other_slot)
    ultimately show ?thesis using s by simp
  qed
qed

lemma heap_print_err [simp]: "heap (print_err l w) = heap w"
  by (simp add: print_err_def)

lemma distinct_count_one: "distinct xs \<Longrightarrow> x \<in> set xs \<Longrightarrow> count_list xs x = 1"
  by (induction xs) auto

text \<open>What a run of the scheduler leaves, when every task runs once and every future is
  collected.\<close>

lemma process_all_items_result:
  assumes "0 < max_workers"
    and "distinct sched" and "set sched = {..<length data}"
    and "set completed = {..<length data}"
  shows "fst (process_all_items loads delay chain sched completed data model_name language
                max_workers w) = Inr (map Some data)"
proof -
  let ?w1 = "print_err (ConnectTo model_name) w"
  let ?F = "fold (run_task loads delay chain data language) sched
              (replicate (length data) None, ?w1)"
  let ?C = "fold (collect_step data (fst ?F)) completed
              (replicate (length data) None, [], snd ?F)"
  have eq: "fst (process_all_items loads delay chain sched completed data model_name language
                max_workers w) = Inr (fst ?C)"
    using assms(1)
    by (simp add: process_all_items_def run_workers_def collect_def Let_def split: prod.splits)
  have len: "length (fst ?C) = length data"
    by (simp add: collect_length)
  have "fst ?C ! i = Some (data ! i)" if i: "i < length data" for i
  proof -
    have isched: "i \<in> set sched" and icomp: "i \<in> set completed"
      using i assms(3,4) by auto
    have bound: "\<forall>k\<in>set sched. k < length (replicate (length data) (None :: future))"
      using assms(3) by simp
    from workers_ran [OF bound isched]
    obtain r where r: "fst ?F ! i = Some r" and ra: "\<forall>a'. r = Inr a' \<longrightarrow> a' = data ! i"
      by blast
    have "i < length (replicate (length data) (None :: addr option))" using i by simp
    from collect_slot [OF icomp this r]
    have "fst ?C ! i = Some (case r of Inl e \<Rightarrow> data ! i | Inr result \<Rightarrow> result)" .
    then show ?thesis using ra by (cases r) auto
  qed
  then have "fst ?C = map Some data"
    using len by (intro nth_equalityI) simp_all
  then show ?thesis using eq by simp
qed

lemma process_all_items_heap:
  assumes "0 < max_workers"
    and "distinct sched" and "set sched = {..<length data}"
    and "distinct data"
  shows "(\<forall>i<length data.
            heap (snd (process_all_items loads delay chain sched completed data model_name
                         language max_workers w)) (data ! i)
            = heap (snd (process_single_item loads delay (chain i) (data ! i) language w))
                (data ! i))
       \<and> (\<forall>b. b \<notin> set data \<longrightarrow>
            heap (snd (process_all_items loads delay chain sched completed data model_name
                         language max_workers w)) b = heap w b)"
proof -
  let ?w1 = "print_err (ConnectTo model_name) w"
  let ?F = "fold (run_task loads delay chain data language) sched
              (replicate (length data) None, ?w1)"
  let ?C = "fold (collect_step data (fst ?F)) completed
              (replicate (length data) None, [], snd ?F)"
  have eq: "snd (process_all_items loads delay chain sched completed data model_name language
                max_workers w) = snd (snd ?C)"
    using assms(1)
    by (simp add: process_all_items_def run_workers_def collect_def Let_def split: prod.splits)
  have hp: "heap (snd (process_all_items loads delay chain sched completed data model_name
                language max_workers w)) = heap (snd ?F)"
    by (simp only: eq collect_heap)
  have inj: "inj_on ((!) data) (set sched)"
    using assms(3,4) by (intro inj_on_nth) auto
  have bound: "\<forall>k\<in>set sched. k < length (replicate (length data) (None :: future))"
    using assms(3) by simp
  have one: "heap (snd ?F) (data ! i)
      = heap (snd (process_single_item loads delay (chain i) (data ! i) language w)) (data ! i)"
    if i: "i < length data" for i
  proof -
    have isched: "i \<in> set sched" using i assms(3) by auto
    from workers_alone [OF assms(2) bound inj isched]
    have "heap (snd ?F) (data ! i)
      = heap (snd (process_single_item loads delay (chain i) (data ! i) language ?w1)) (data ! i)"
      by blast
    moreover have "heap ?w1 (data ! i) = heap w (data ! i)" by simp
    then have "heap (snd (process_single_item loads delay (chain i) (data ! i) language ?w1)) (data ! i)
      = heap (snd (process_single_item loads delay (chain i) (data ! i) language w)) (data ! i)"
      using psi_local by blast
    ultimately show ?thesis by simp
  qed
  have two: "heap (snd ?F) b = heap w b" if b: "b \<notin> set data" for b
  proof -
    have "\<forall>i\<in>set sched. data ! i \<noteq> b"
      using b assms(3) by (auto simp: in_set_conv_nth)
    then have "heap (snd ?F) b = heap ?w1 b" by (rule workers_frame)
    then show ?thesis by simp
  qed
  show ?thesis using one two hp by simp
qed

lemma two_records_eval:
  "process_all_items loads_stub 5 mixed_chain [1, 0] [1, 0] [0, 1] ''deepseek-chat'' ''Chinese'' 1
     two_records =
   (Inr [Some 0, Some 1],
    \<lparr>heap = (\<lambda>a. []) (0 := example_item @ [(''AI'', JObj [(''tldr'', JStr ''t'')])],
                       1 := [(''summary'', JStr ''B'')]),
     slept = [5, 5],
     stderr = [ConnectTo ''deepseek-chat'', ItemException 1 (KeyError ''id'')]\<rparr>)"
  by (simp add: process_all_items_def run_workers_def collect_def run_task_eq collect_step_eq
      psi_defs two_records_def mixed_chain_def broken_chain_def answering_chain_def dict_get_def
      example_item_def py_in_broken extract_broken loads_stub_def Let_def fun_upd_twist
      sleep_returns sleep_error_5
      split: prod.splits)

lemma two_records_hyps:
  "(0::int) < 1" "distinct [1, 0 :: nat]" "set [1, 0 :: nat] = {..<length [0, 1 :: nat]}"
  "distinct [0, 1 :: nat]" "set [0, 1 :: nat] = {..<length [0, 1 :: nat]}"
  by auto

text \<open>
  Claim C1: with a positive worker count, every task run once and every future collected
  once, the result of \<^verbatim>\<open>process_all_items\<close> has the length of its input; slot \<open>i\<close> holds
  the record \<open>data ! i\<close>; each index is assigned exactly once by the collecting loop; and
  the record in a slot either has an \<^verbatim>\<open>AI\<close> field or is as it was in the input.
\<close>

theorem every_slot_filled_once:
  assumes "0 < max_workers"
    and "distinct sched" and "set sched = {..<length data}"
    and "distinct completed" and "set completed = {..<length data}"
    and "distinct data"
  shows "(\<exists>processed_data.
            fst (process_all_items loads delay chain sched completed data model_name language
                   max_workers w) = Inr processed_data
            \<and> length processed_data = length data
            \<and> (\<forall>i<length data. processed_data ! i = Some (data ! i)))
       \<and> (\<forall>i<length data.
            count_list
              (fst (snd (collect data
                 (fst (run_workers loads delay chain data language sched
                         (print_err (ConnectTo model_name) w)))
                 completed
                 (snd (run_workers loads delay chain data language sched
                         (print_err (ConnectTo model_name) w)))))) i = 1)
       \<and> (\<forall>i<length data.
            (\<exists>v. dict_get (heap (snd (process_all_items loads delay chain sched completed data
                     model_name language max_workers w)) (data ! i)) ''AI'' = Some v)
            \<or> heap (snd (process_all_items loads delay chain sched completed data
                     model_name language max_workers w)) (data ! i) = heap w (data ! i))"
proof (intro conjI)
  have r: "fst (process_all_items loads delay chain sched completed data model_name language
                max_workers w) = Inr (map Some data)"
    using assms(1,2,3,5) by (rule process_all_items_result)
  show "\<exists>processed_data.
            fst (process_all_items loads delay chain sched completed data model_name language
                   max_workers w) = Inr processed_data
            \<and> length processed_data = length data
            \<and> (\<forall>i<length data. processed_data ! i = Some (data ! i))"
    using r by simp
next
  let ?w1 = "print_err (ConnectTo model_name) w"
  let ?F = "run_workers loads delay chain data language sched ?w1"
  have bound: "\<forall>k\<in>set sched. k < length (replicate (length data) (None :: future))"
    using assms(3) by simp
  have "\<forall>idx\<in>set completed. fst ?F ! idx \<noteq> None"
  proof
    fix idx assume "idx \<in> set completed"
    then have "idx \<in> set sched" using assms(3,5) by simp
    from workers_ran [OF bound this] show "fst ?F ! idx \<noteq> None"
      unfolding run_workers_def by fastforce
  qed
  then have "fst (snd (collect data (fst ?F) completed (snd ?F))) = completed"
    unfolding collect_def by (simp add: collect_written)
  then show "\<forall>i<length data.
      count_list (fst (snd (collect data (fst ?F) completed (snd ?F)))) i = 1"
    using assms(4,5) by (simp add: distinct_count_one)
next
  let ?P = "process_all_items loads delay chain sched completed data model_name language
              max_workers w"
  show "\<forall>i<length data.
          (\<exists>v. dict_get (heap (snd ?P) (data ! i)) ''AI'' = Some v)
          \<or> heap (snd ?P) (data ! i) = heap w (data ! i)"
  proof (intro allI impI)
    fix i assume i: "i < length data"
    let ?S = "process_single_item loads delay (chain i) (data ! i) language w"
    have h: "heap (snd ?P) (data ! i) = heap (snd ?S) (data ! i)"
      using process_all_items_heap [OF assms(1,2,3,6)] i by blast
    show "(\<exists>v. dict_get (heap (snd ?P) (data ! i)) ''AI'' = Some v)
          \<or> heap (snd ?P) (data ! i) = heap w (data ! i)"
      using psi_AI_or_unchanged [of loads delay "chain i" "data ! i" language w] h by simp
  qed
qed

theorem every_slot_filled_once_witness:
  "(0::int) < 1 \<and> distinct [1, 0 :: nat] \<and> set [1, 0 :: nat] = {..<length [0, 1 :: nat]}
   \<and> distinct [0, 1 :: nat]
   \<and> (\<exists>processed_data.
         fst (process_all_items loads_stub 5 mixed_chain [1, 0] [1, 0] [0, 1] ''deepseek-chat''
                ''Chinese'' 1 two_records) = Inr processed_data
         \<and> length processed_data = 2
         \<and> processed_data ! 0 = Some 0 \<and> processed_data ! 1 = Some 1)
   \<and> count_list
        (fst (snd (collect [0, 1]
           (fst (run_workers loads_stub 5 mixed_chain [0, 1] ''Chinese'' [1, 0]
                   (print_err (ConnectTo ''deepseek-chat'') two_records)))
           [1, 0]
           (snd (run_workers loads_stub 5 mixed_chain [0, 1] ''Chinese'' [1, 0]
                   (print_err (ConnectTo ''deepseek-chat'') two_records)))))) 1 = 1
   \<and> dict_get (heap (snd (process_all_items loads_stub 5 mixed_chain [1, 0] [1, 0] [0, 1]
                 ''deepseek-chat'' ''Chinese'' 1 two_records)) 0) ''AI''
        = Some (JObj [(''tldr'', JStr ''t'')])
   \<and> heap (snd (process_all_items loads_stub 5 mixed_chain [1, 0] [1, 0] [0, 1]
                 ''deepseek-chat'' ''Chinese'' 1 two_records)) 1 = heap two_records 1"
proof -
  note T = every_slot_filled_once [where max_workers = 1 and sched = "[1, 0]"
      and completed = "[1, 0]" and data = "[0, 1]" and loads = loads_stub and delay = 5
      and chain = mixed_chain and model_name = "''deepseek-chat''" and language = "''Chinese''"
      and w = two_records,
      OF two_records_hyps(1) two_records_hyps(2) two_records_hyps(3) two_records_hyps(2)
         two_records_hyps(3) two_records_hyps(4)]
  from T obtain pd where pd:
    "fst (process_all_items loads_stub 5 mixed_chain [1, 0] [1, 0] [0, 1] ''deepseek-chat''
                ''Chinese'' 1 two_records) = Inr pd"
    "length pd = length [0, 1 :: nat]"
    "\<forall>i<length [0, 1 :: nat]. pd ! i = Some ([0, 1] ! i)"
    by blast
  have p0: "pd ! 0 = Some 0" and p1: "pd ! 1 = Some 1" using pd(3) by auto
  have c: "count_list
        (fst (snd (collect [0, 1]
           (fst (run_workers loads_stub 5 mixed_chain [0, 1] ''Chinese'' [1, 0]
                   (print_err (ConnectTo ''deepseek-chat'') two_records)))
           [1, 0]
           (snd (run_workers loads_stub 5 mixed_chain [0, 1] ''Chinese'' [1, 0]
                   (print_err (ConnectTo ''deepseek-chat'') two_records)))))) 1 = 1"
    using T by auto
  have h0: "dict_get (heap (snd (process_all_items loads_stub 5 mixed_chain [1, 0] [1, 0] [0, 1]
                 ''deepseek-chat'' ''Chinese'' 1 two_records)) 0) ''AI''
        = Some (JObj [(''tldr'', JStr ''t'')])"
    by (simp only: two_records_eval) (simp add: dict_get_def example_item_def)
  have h1: "heap (snd (process_all_items loads_stub 5 mixed_chain [1, 0] [1, 0] [0, 1]
                 ''deepseek-chat'' ''Chinese'' 1 two_records)) 1 = heap two_records 1"
    by (simp only: two_records_eval) (simp add: two_records_def)
  show ?thesis
    using two_records_hyps pd(1,2) p0 p1 c h0 h1 by auto
qed

text \<open>
  Claim C2: whatever the order in which the tasks run and the order in which their futures
  complete, slot \<open>i\<close> of the result is the record at position \<open>i\<close> of the input, the
  result list and the final store are the same as for any other pair of orders, and every
  field of a record other than \<^verbatim>\<open>AI\<close> (its \<^verbatim>\<open>id\<close> among them) is what the input had.
\<close>

theorem output_order_is_input_order:
  assumes "0 < max_workers"
    and "distinct sched" and "set sched = {..<length data}"
    and "set completed = {..<length data}"
    and "distinct sched'" and "set sched' = {..<length data}"
    and "set completed' = {..<length data}"
    and "distinct data"
  shows "fst (process_all_items loads delay chain sched completed data model_name language
                max_workers w) = Inr (map Some data)
       \<and> fst (process_all_items loads delay chain sched' completed' data model_name language
                max_workers w)
           = fst (process_all_items loads delay chain sched completed data model_name language
                max_workers w)
       \<and> heap (snd (process_all_items loads delay chain sched' completed' data model_name
                language max_workers w))
           = heap (snd (process_all_items loads delay chain sched completed data model_name
                language max_workers w))
       \<and> (\<forall>i<length data. \<forall>k. k \<noteq> ''AI'' \<longrightarrow>
             dict_get (heap (snd (process_all_items loads delay chain sched completed data
                         model_name language max_workers w)) (data ! i)) k
               = dict_get (heap w (data ! i)) k)"
proof (intro conjI)
  let ?P = "process_all_items loads delay chain sched completed data model_name language
              max_workers w"
  let ?P' = "process_all_items loads delay chain sched' completed' data model_name language
              max_workers w"
  show r: "fst ?P = Inr (map Some data)"
    using assms(1,2,3,4) by (rule process_all_items_result)
  have "fst ?P' = Inr (map Some data)"
    using assms(1,5,6,7) by (rule process_all_items_result)
  with r show "fst ?P' = fst ?P" by simp
  note H = process_all_items_heap [OF assms(1,2,3,8), of loads delay chain completed model_name language w]
  note H' = process_all_items_heap [OF assms(1,5,6,8), of loads delay chain completed' model_name language w]
  show "heap (snd ?P') = heap (snd ?P)"
  proof
    fix b
    show "heap (snd ?P') b = heap (snd ?P) b"
    proof (cases "b \<in> set data")
      case True
      then obtain i where "i < length data" and "b = data ! i"
        by (auto simp: in_set_conv_nth)
      then show ?thesis using H H' by simp
    next
      case False
      then show ?thesis using H H' by simp
    qed
  qed
  show "\<forall>i<length data. \<forall>k. k \<noteq> ''AI'' \<longrightarrow>
          dict_get (heap (snd ?P) (data ! i)) k = dict_get (heap w (data ! i)) k"
    using H by (simp add: psi_keeps_fields)
qed

theorem output_order_is_input_order_witness:
  "(0::int) < 1 \<and> distinct [1, 0 :: nat] \<and> set [1, 0 :: nat] = {..<length [0, 1 :: nat]}
   \<and> distinct [0, 1 :: nat] \<and> set [0, 1 :: nat] = {..<length [0, 1 :: nat]}
   \<and> fst (process_all_items loads_stub 5 mixed_chain [1, 0] [1, 0] [0, 1] ''deepseek-chat''
            ''Chinese'' 1 two_records) = Inr [Some 0, Some 1]
   \<and> fst (process_all_items loads_stub 5 mixed_chain [0, 1] [0, 1] [0, 1] ''deepseek-chat''
            ''Chinese'' 1 two_records)
       = fst (process_all_items loads_stub 5 mixed_chain [1, 0] [1, 0] [0, 1] ''deepseek-chat''
            ''Chinese'' 1 two_records)
   \<and> heap (snd (process_all_items loads_stub 5 mixed_chain [0, 1] [0, 1] [0, 1]
            ''deepseek-chat'' ''Chinese'' 1 two_records))
       = heap (snd (process_all_items loads_stub 5 mixed_chain [1, 0] [1, 0] [0, 1]
            ''deepseek-chat'' ''Chinese'' 1 two_records))
   \<and> dict_get (heap (snd (process_all_items loads_stub 5 mixed_chain [1, 0] [1, 0] [0, 1]
            ''deepseek-chat'' ''Chinese'' 1 two_records)) 0) ''id'' = Some (JInt 1)"
proof -
  note T = output_order_is_input_order [where max_workers = 1 and sched = "[1, 0]"
      and completed = "[1, 0]" and sched' = "[0, 1]" and completed' = "[0, 1]"
      and data = "[0, 1]" and loads = loads_stub and delay = 5
      and chain = mixed_chain and model_name = "''deepseek-chat''" and language = "''Chinese''"
      and w = two_records,
      OF two_records_hyps(1) two_records_hyps(2) two_records_hyps(3) two_records_hyps(3)
         two_records_hyps(4) two_records_hyps(5) two_records_hyps(5) two_records_hyps(4)]
  have k: "''id'' \<noteq> ''AI''" by simp
  from T have "\<forall>i<length [0, 1 :: nat]. \<forall>k. k \<noteq> ''AI'' \<longrightarrow>
             dict_get (heap (snd (process_all_items loads_stub 5 mixed_chain [1, 0] [1, 0] [0, 1]
                ''deepseek-chat'' ''Chinese'' 1 two_records)) ([0, 1] ! i)) k
               = dict_get (heap two_records ([0, 1] ! i)) k" by blast
  then have "dict_get (heap (snd (process_all_items loads_stub 5 mixed_chain [1, 0] [1, 0] [0, 1]
                ''deepseek-chat'' ''Chinese'' 1 two_records)) ([0, 1] ! 0)) ''id''
               = dict_get (heap two_records ([0, 1] ! 0)) ''id''"
    using k by (metis length_Cons zero_less_Suc)
  moreover have "dict_get (heap two_records 0) ''id'' = Some (JInt 1)"
    by (simp add: two_records_def example_item_def dict_get_def)
  ultimately have i: "dict_get (heap (snd (process_all_items loads_stub 5 mixed_chain [1, 0] [1, 0]
      [0, 1] ''deepseek-chat'' ''Chinese'' 1 two_records)) 0) ''id'' = Some (JInt 1)"
    by simp
  from T have a: "fst (process_all_items loads_stub 5 mixed_chain [1, 0] [1, 0] [0, 1]
      ''deepseek-chat'' ''Chinese'' 1 two_records) = Inr (map Some [0, 1])" by blast
  from T have b: "fst (process_all_items loads_stub 5 mixed_chain [0, 1] [0, 1] [0, 1] ''deepseek-chat''
            ''Chinese'' 1 two_records)
       = fst (process_all_items loads_stub 5 mixed_chain [1, 0] [1, 0] [0, 1] ''deepseek-chat''
            ''Chinese'' 1 two_records)" by blast
  from T have c: "heap (snd (process_all_items loads_stub 5 mixed_chain [0, 1] [0, 1] [0, 1]
            ''deepseek-chat'' ''Chinese'' 1 two_records))
       = heap (snd (process_all_items loads_stub 5 mixed_chain [1, 0] [1, 0] [0, 1]
            ''deepseek-chat'' ''Chinese'' 1 two_records))" by blast
  from a have a': "fst (process_all_items loads_stub 5 mixed_chain [1, 0] [1, 0] [0, 1]
      ''deepseek-chat'' ''Chinese'' 1 two_records) = Inr [Some 0, Some 1]" by simp
  show ?thesis
    using two_records_hyps a' b c i by blast
qed





section \<open>Properties of the deduplication and of a whole run\<close>

text \<open>The loop with every key defined: what it appends to the accumulator.\<close>

lemma dedup_loop_first_occurrences:
  assumes "\<forall>a\<in>set data. \<exists>k. item_key (h a) = Inr k"
  shows "dedup_loop h data seen_ids unique_data =
           Inr (unique_data @
                first_occurrences (\<lambda>a. item_key (h a))
                  (filter (\<lambda>a. \<forall>k. item_key (h a) = Inr k \<longrightarrow> k \<notin> seen_ids) data))"
  using assms
proof (induction data arbitrary: seen_ids unique_data)
  case Nil
  then show ?case by simp
next
  case (Cons a rest)
  then obtain k where k: "item_key (h a) = Inr k" by auto
  have rest: "\<forall>b\<in>set rest. \<exists>k. item_key (h b) = Inr k" using Cons.prems by simp
  show ?case
  proof (cases "k \<in> seen_ids")
    case True
    then show ?thesis using k Cons.IH [OF rest] by simp
  next
    case False
    have "filter (\<lambda>y. item_key (h y) \<noteq> item_key (h a))
            (filter (\<lambda>b. \<forall>k. item_key (h b) = Inr k \<longrightarrow> k \<notin> seen_ids) rest)
        = filter (\<lambda>b. \<forall>k'. item_key (h b) = Inr k' \<longrightarrow> k' \<notin> insert k seen_ids) rest"
      unfolding filter_filter using k by (intro filter_cong) auto
    then show ?thesis using False k Cons.IH [OF rest] by simp
  qed
qed

lemma first_occurrences_snoc:
  "first_occurrences key (xs @ [x]) =
     first_occurrences key xs @ (if key x \<in> key ` set xs then [] else [x])"
proof (induction key xs rule: first_occurrences.induct)
  case (1 key)
  then show ?case by simp
next
  case (2 key y ys)
  show ?case
  proof (cases "key x = key y")
    case True
    then show ?thesis by simp
  next
    case False
    have "(key x \<in> key ` set (filter (\<lambda>z. key z \<noteq> key y) ys)) = (key x \<in> key ` set ys)"
      using False by auto
    then show ?thesis using False 2 by simp
  qed
qed

lemma first_occurrences_subseq: "subseq (first_occurrences key xs) xs"
proof (induction key xs rule: first_occurrences.induct)
  case (1 key)
  then show ?case by simp
next
  case (2 key x xs)
  have "subseq (filter (\<lambda>y. key y \<noteq> key x) xs) xs" by simp
  with 2 have "subseq (first_occurrences key (filter (\<lambda>y. key y \<noteq> key x) xs)) xs"
    using subseq_order.order_trans by blast
  then show ?case by simp
qed

lemma first_occurrences_keys:
  "key ` set (first_occurrences key xs) = key ` set xs"
proof (induction key xs rule: first_occurrences.induct)
  case (1 key)
  then show ?case by simp
next
  case (2 key x xs)
  then show ?case by auto
qed

lemma first_occurrences_distinct: "distinct (map key (first_occurrences key xs))"
proof (induction key xs rule: first_occurrences.induct)
  case (1 key)
  then show ?case by simp
next
  case (2 key x xs)
  have "key x \<notin> key ` set (filter (\<lambda>y. key y \<noteq> key x) xs)" by auto
  then have "key x \<notin> key ` set (first_occurrences key (filter (\<lambda>y. key y \<noteq> key x) xs))"
    by (simp add: first_occurrences_keys)
  with 2 show ?case by simp
qed

lemma first_occurrences_by_index:
  "first_occurrences key xs =
     map ((!) xs) (filter (\<lambda>i. \<forall>j<i. key (xs ! j) \<noteq> key (xs ! i)) [0..<length xs])"
proof (induction xs rule: rev_induct)
  case Nil
  then show ?case by simp
next
  case (snoc x xs)
  have a: "filter (\<lambda>i. \<forall>j<i. key ((xs @ [x]) ! j) \<noteq> key ((xs @ [x]) ! i)) [0..<length xs]
      = filter (\<lambda>i. \<forall>j<i. key (xs ! j) \<noteq> key (xs ! i)) [0..<length xs]"
    by (intro filter_cong) (auto simp: nth_append)
  have b: "map ((!) (xs @ [x])) (filter (\<lambda>i. \<forall>j<i. key (xs ! j) \<noteq> key (xs ! i)) [0..<length xs])
      = map ((!) xs) (filter (\<lambda>i. \<forall>j<i. key (xs ! j) \<noteq> key (xs ! i)) [0..<length xs])"
    by (intro map_cong) (auto simp: nth_append)
  have c: "(\<forall>j<length xs. key ((xs @ [x]) ! j) \<noteq> key x) = (key x \<notin> key ` set xs)"
  proof -
    have "(key x \<notin> key ` set xs) = (\<forall>y\<in>set xs. key y \<noteq> key x)"
      by (metis imageE image_eqI)
    also have "\<dots> = (\<forall>j<length xs. key (xs ! j) \<noteq> key x)"
      by (simp add: all_set_conv_all_nth)
    also have "\<dots> = (\<forall>j<length xs. key ((xs @ [x]) ! j) \<noteq> key x)"
      by (simp add: nth_append)
    finally show ?thesis by simp
  qed
  show ?case
    using snoc a b c by (simp add: first_occurrences_snoc)
qed

lemma three_records_keys:
  "item_key (three_records 0) = Inr (KNum 1)"
  "item_key (three_records 1) = Inr (KNum 1)"
  "item_key (three_records 2) = Inr (KNum 2)"
  by (simp_all add: three_records_def item_key_def dict_get_def)

text \<open>A record without an \<^verbatim>\<open>id\<close> ends the loop with \<^verbatim>\<open>KeyError\<close>.\<close>

lemma dedup_missing_id:
  "dict_get (h a) ''id'' = None \<Longrightarrow> dedup h (a # rest) = Inl (KeyError ''id'')"
  by (simp add: dedup_def item_key_def)

text \<open>
  Claim C5: for records that each have an \<^verbatim>\<open>id\<close> usable as a set element, the loop of
  lines 171 to 176 returns, without error and without touching the store, the records whose
  \<^verbatim>\<open>id\<close> no earlier record has: those at the positions \<open>i\<close> with no \<open>j < i\<close> of equal
  \<^verbatim>\<open>id\<close>, in input order. The result is a subsequence of the input, its identifiers are
  pairwise different, and every identifier of the input is kept.
\<close>

theorem dedup_keeps_first_occurrences:
  assumes "\<forall>a\<in>set data. \<exists>k. item_key (h a) = Inr k"
  shows "dedup h data = Inr (first_occurrences (\<lambda>a. item_key (h a)) data)
       \<and> first_occurrences (\<lambda>a. item_key (h a)) data
           = map ((!) data)
               (filter (\<lambda>i. \<forall>j<i. item_key (h (data ! j)) \<noteq> item_key (h (data ! i)))
                  [0..<length data])
       \<and> subseq (first_occurrences (\<lambda>a. item_key (h a)) data) data
       \<and> distinct (map (\<lambda>a. item_key (h a)) (first_occurrences (\<lambda>a. item_key (h a)) data))
       \<and> (\<lambda>a. item_key (h a)) ` set (first_occurrences (\<lambda>a. item_key (h a)) data)
           = (\<lambda>a. item_key (h a)) ` set data"
proof (intro conjI)
  have "filter (\<lambda>a. \<forall>k. item_key (h a) = Inr k \<longrightarrow> k \<notin> {}) data = data" by simp
  then show "dedup h data = Inr (first_occurrences (\<lambda>a. item_key (h a)) data)"
    unfolding dedup_def using dedup_loop_first_occurrences [OF assms, of "{}" "[]"] by simp
  show "first_occurrences (\<lambda>a. item_key (h a)) data
           = map ((!) data)
               (filter (\<lambda>i. \<forall>j<i. item_key (h (data ! j)) \<noteq> item_key (h (data ! i)))
                  [0..<length data])"
    by (rule first_occurrences_by_index)
  show "subseq (first_occurrences (\<lambda>a. item_key (h a)) data) data"
    by (rule first_occurrences_subseq)
  show "distinct (map (\<lambda>a. item_key (h a)) (first_occurrences (\<lambda>a. item_key (h a)) data))"
    by (rule first_occurrences_distinct)
  show "(\<lambda>a. item_key (h a)) ` set (first_occurrences (\<lambda>a. item_key (h a)) data)
           = (\<lambda>a. item_key (h a)) ` set data"
    by (rule first_occurrences_keys)
qed

theorem dedup_keeps_first_occurrences_witness:
  "item_key (three_records 0) = Inr (KNum 1) \<and> item_key (three_records 1) = Inr (KNum 1)
   \<and> item_key (three_records 2) = Inr (KNum 2)
   \<and> dedup three_records [0, 1, 2] = Inr [0, 2]"
proof -
  have h: "\<forall>a\<in>set [0, 1, 2 :: nat]. \<exists>k. item_key (three_records a) = Inr k"
    using three_records_keys by simp
  have "first_occurrences (\<lambda>a. item_key (three_records a)) [0, 1, 2] = [0, 2]"
    using three_records_keys by simp
  then show ?thesis
    using dedup_keeps_first_occurrences [OF h] three_records_keys by simp
qed

text \<open>A run that reads its input, on a path whose output path differs from it, writes one
  line per deduplicated record, in order.\<close>

lemma main_output:
  assumes "fs path = Some lines" and "target_file path language \<noteq> path"
    and "read_items lines = Inr items"
    and "dedup (\<lambda>a. if a < length items then items ! a else []) [0..<length items]
           = Inr unique_data"
    and "0 < max_workers" and "distinct sched" and "set sched = {..<length unique_data}"
    and "set completed = {..<length unique_data}"
  shows "\<exists>out w'.
           main loads delay chain sched completed path max_workers model_name language fs w
             = (None, fs(target_file path language \<mapsto> out), w')
           \<and> length out = length unique_data
           \<and> (\<forall>i<length unique_data. out ! i = JObj (heap w' (unique_data ! i)))"
proof -
  let ?t = "target_file path language"
  let ?fs1 = "if fs ?t \<noteq> None then fs(?t := None) else fs"
  let ?w1 = "if fs ?t \<noteq> None then print_err (RemovedExistingFile ?t) w else w"
  let ?w2 = "?w1\<lparr>heap := (\<lambda>a. if a < length items then items ! a else [])\<rparr>"
  let ?P = "process_all_items loads delay chain sched completed unique_data model_name language
              max_workers (print_err (OpenFile path) ?w2)"
  have r: "fst ?P = Inr (map Some unique_data)"
    using assms(5,6,7,8) by (rule process_all_items_result)
  have p: "?fs1 path = Some lines" using assms(1,2) by simp
  have u: "?fs1(?t \<mapsto> out) = fs(?t \<mapsto> out)" for out by auto
  have d: "dedup (heap ?w2) [0..<length items] = Inr unique_data" using assms(4) by simp
  obtain w' where P: "?P = (Inr (map Some unique_data), w')"
    using r by (cases ?P) auto
  have "main loads delay chain sched completed path max_workers model_name language fs w
      = (None, ?fs1(?t \<mapsto> map (dump_slot (heap w')) (map Some unique_data)), w')"
    unfolding main_def Let_def
    by (simp only: p option.case assms(3) sum.case d P prod.case)
  then have "main loads delay chain sched completed path max_workers model_name language fs w
      = (None, fs(?t \<mapsto> map (dump_slot (heap w')) (map Some unique_data)), w')"
    by (simp only: u)
  moreover have "length (map (dump_slot (heap w')) (map Some unique_data)) = length unique_data"
    by simp
  moreover have "\<forall>i<length unique_data.
      map (dump_slot (heap w')) (map Some unique_data) ! i = JObj (heap w' (unique_data ! i))"
    by (simp add: dump_slot_def)
  ultimately show ?thesis by blast
qed
section \<open>Properties of the output path\<close>

lemma main_deletes_input:
  assumes "\<not> py_in ''.jsonl'' path" and "fs path = Some lines"
  shows "main loads delay chain sched completed path max_workers model_name language fs w =
           (Some FileNotFoundError, fs(path := None), print_err (RemovedExistingFile path) w)"
proof -
  have "target_file path language = path"
    using assms(1) by (simp add: target_file_def py_replace_absent)
  then show ?thesis using assms(2) by (simp add: main_def Let_def)
qed

lemma main_writes_only_target:
  assumes "main loads delay chain sched completed path max_workers model_name language fs w
             = (None, fs', w')"
  shows "\<exists>out. fs' = fs(target_file path language \<mapsto> out)"
proof -
  show ?thesis
    using assms unfolding main_def Let_def
    by (auto split: option.splits sum.splits prod.splits simp del: fun_upd_apply)
qed

text \<open>
  Claim C10: the output path is the input path with every occurrence of \<^verbatim>\<open>.jsonl\<close>
  replaced, wherever it stands: an occurrence splits the path into two parts that are
  rewritten on their own. A path without \<^verbatim>\<open>.jsonl\<close> is its own output path, so the
  deletion of line 161 removes the input file (and the run then stops at line 166, with
  nothing left to read). The only file a completed run has written is the one at the
  output path.
\<close>

theorem target_file_replaces_everywhere:
  "target_file (a @ ''.jsonl'' @ b) language =
      target_file a language @ ''_AI_enhanced_'' @ language @ ''.jsonl'' @ target_file b language
   \<and> (\<not> py_in ''.jsonl'' path \<longrightarrow> target_file path language = path)
   \<and> (\<not> py_in ''.jsonl'' path \<longrightarrow> fs path = Some lines \<longrightarrow>
        main loads delay chain sched completed path max_workers model_name language fs w =
           (Some FileNotFoundError, fs(path := None), print_err (RemovedExistingFile path) w))
   \<and> (main loads delay chain sched completed path max_workers model_name language fs w
          = (None, fs', w') \<longrightarrow>
        (\<exists>out. fs' = fs(target_file path language \<mapsto> out)))"
proof (intro conjI impI)
  show "target_file (a @ ''.jsonl'' @ b) language =
      target_file a language @ ''_AI_enhanced_'' @ language @ ''.jsonl'' @ target_file b language"
    unfolding target_file_def by (simp only: py_replace_jsonl_split append_assoc)
next
  assume "\<not> py_in ''.jsonl'' path"
  then show "target_file path language = path"
    by (simp add: target_file_def py_replace_absent)
next
  assume "\<not> py_in ''.jsonl'' path" and "fs path = Some lines"
  then show "main loads delay chain sched completed path max_workers model_name language fs w =
           (Some FileNotFoundError, fs(path := None), print_err (RemovedExistingFile path) w)"
    by (rule main_deletes_input)
next
  assume "main loads delay chain sched completed path max_workers model_name language fs w
          = (None, fs', w')"
  then show "\<exists>out. fs' = fs(target_file path language \<mapsto> out)"
    by (rule main_writes_only_target)
qed

lemma jsonl_run:
  "\<exists>out w'. main loads_stub 5 (\<lambda>idx. failing_chain) [0] [0] ''data.jsonl'' 1 ''deepseek-chat''
       ''Chinese'' jsonl_fs example_world
     = (None, jsonl_fs(target_file ''data.jsonl'' ''Chinese'' \<mapsto> out), w')"
proof -
  have 1: "jsonl_fs ''data.jsonl'' = Some [JObj example_item]" by (simp add: jsonl_fs_def)
  have 2: "target_file ''data.jsonl'' ''Chinese'' \<noteq> ''data.jsonl''"
    by (simp add: target_file_def)
  have 3: "read_items [JObj example_item] = Inr [example_item]" by simp
  have 4: "dedup (\<lambda>a. if a < length [example_item] then [example_item] ! a else [])
      [0..<length [example_item]] = Inr [0]"
    by (simp add: dedup_def item_key_def dict_get_def example_item_def)
  have 5: "(0::int) < 1" by simp
  have 6: "distinct [0::nat]" by simp
  have 7: "set [0::nat] = {..<length [0::nat]}" by auto
  from main_output [where fs = jsonl_fs and path = "''data.jsonl''", OF 1 2 3 4 5 6 7 7]
  show ?thesis by blast
qed

theorem target_file_replaces_everywhere_witness:
  "\<not> py_in ''.jsonl'' ''data.json'' \<and>
   example_fs ''data.json'' = Some [JObj example_item] \<and>
   target_file ''data.json'' ''Chinese'' = ''data.json'' \<and>
   main loads_stub 5 (\<lambda>idx. failing_chain) [0] [0] ''data.json'' 1 ''deepseek-chat'' ''Chinese''
        example_fs example_world =
     (Some FileNotFoundError, example_fs(''data.json'' := None),
      print_err (RemovedExistingFile ''data.json'') example_world) \<and>
   target_file (''a.jsonl.d/b'' @ ''.jsonl'' @ '''') ''Chinese'' =
     ''a_AI_enhanced_Chinese.jsonl.d/b_AI_enhanced_Chinese.jsonl'' \<and>
   (\<exists>out w'. main loads_stub 5 (\<lambda>idx. failing_chain) [0] [0] ''data.jsonl'' 1 ''deepseek-chat''
       ''Chinese'' jsonl_fs example_world
     = (None, jsonl_fs(''data_AI_enhanced_Chinese.jsonl'' \<mapsto> out), w'))"
proof -
  have h1: "\<not> py_in ''.jsonl'' ''data.json''" by simp
  have h2: "example_fs ''data.json'' = Some [JObj example_item]"
    by (simp add: example_fs_def)
  note T = target_file_replaces_everywhere [where path = "''data.json''" and language = "''Chinese''"
      and fs = example_fs and lines = "[JObj example_item]" and a = "''a.jsonl.d/b''" and b = "''''"
      and loads = loads_stub and delay = 5 and chain = "\<lambda>idx. failing_chain" and sched = "[0]"
      and completed = "[0]" and max_workers = 1 and model_name = "''deepseek-chat''"
      and w = example_world]
  have t: "target_file ''a.jsonl.d/b'' ''Chinese'' = ''a_AI_enhanced_Chinese.jsonl.d/b''"
    by (simp add: target_file_def)
  have e: "target_file '''' ''Chinese'' = ''''" by (simp add: target_file_def)
  from T have "target_file (''a.jsonl.d/b'' @ ''.jsonl'' @ '''') ''Chinese'' =
      target_file ''a.jsonl.d/b'' ''Chinese'' @ ''_AI_enhanced_'' @ ''Chinese'' @ ''.jsonl'' @ target_file '''' ''Chinese''"
    by blast
  then have c: "target_file (''a.jsonl.d/b'' @ ''.jsonl'' @ '''') ''Chinese'' =
     ''a_AI_enhanced_Chinese.jsonl.d/b_AI_enhanced_Chinese.jsonl''"
    by (simp only: t e) simp
  have n: "target_file ''data.jsonl'' ''Chinese'' = ''data_AI_enhanced_Chinese.jsonl''"
    by (simp add: target_file_def)
  obtain out w' where r: "main loads_stub 5 (\<lambda>idx. failing_chain) [0] [0] ''data.jsonl'' 1
       ''deepseek-chat'' ''Chinese'' jsonl_fs example_world
     = (None, jsonl_fs(target_file ''data.jsonl'' ''Chinese'' \<mapsto> out), w')"
    using jsonl_run by blast
  note S = target_file_replaces_everywhere [where path = "''data.jsonl''"
      and language = "''Chinese''" and fs = jsonl_fs
      and loads = loads_stub and delay = 5 and chain = "\<lambda>idx. failing_chain" and sched = "[0]"
      and completed = "[0]" and max_workers = 1 and model_name = "''deepseek-chat''"
      and w = example_world and fs' = "jsonl_fs(target_file ''data.jsonl'' ''Chinese'' \<mapsto> out)"
      and w' = w']
  from S r have "\<exists>out'. jsonl_fs(target_file ''data.jsonl'' ''Chinese'' \<mapsto> out)
      = jsonl_fs(target_file ''data.jsonl'' ''Chinese'' \<mapsto> out')" by blast
  with r n have d: "\<exists>out w'. main loads_stub 5 (\<lambda>idx. failing_chain) [0] [0] ''data.jsonl'' 1
       ''deepseek-chat'' ''Chinese'' jsonl_fs example_world
     = (None, jsonl_fs(''data_AI_enhanced_Chinese.jsonl'' \<mapsto> out), w')"
    by auto
  from T h1 h2 c d show ?thesis by blast
qed

end
